theory Spec2Isabelle
  imports Main "HOL-Library.Product_Lexorder" "HOL-Library.Sublist" "HOL-Library.Multiset"
begin

section \<open>Data model\<close>

text \<open>
  The two tables of the trivia service. The model classes \<^verbatim>\<open>Category\<close> and \<^verbatim>\<open>Question\<close>
  are declared in \<^verbatim>\<open>models.py\<close>, which is not among the sources; the views in
  \<^verbatim>\<open>flaskr/__init__.py\<close> read the attributes \<^verbatim>\<open>category.id\<close>, \<^verbatim>\<open>category.type\<close>,
  \<^verbatim>\<open>question.id\<close>, \<^verbatim>\<open>Question.category\<close>, \<^verbatim>\<open>Question.question\<close> and
  \<^verbatim>\<open>Question.difficulty\<close>.
\<close>

text \<open>Modelled from the spec: the model class \<^verbatim>\<open>Category\<close> of \<^verbatim>\<open>models.py\<close> (not among
  the sources). Section 3: a unique integer \<^verbatim>\<open>id\<close> and a display string \<^verbatim>\<open>type\<close>.\<close>

record category =
  c_id :: int
  c_type :: string

text \<open>Modelled from the spec: the model class \<^verbatim>\<open>Question\<close> of \<^verbatim>\<open>models.py\<close> (not among
  the sources). Section 3: a unique integer \<^verbatim>\<open>id\<close>, the texts \<^verbatim>\<open>question\<close> and
  \<^verbatim>\<open>answer\<close>, the integer \<^verbatim>\<open>category\<close> (a category id, not enforced) and the integer
  \<^verbatim>\<open>difficulty\<close>.\<close>

record question =
  q_id :: int
  q_question :: string
  q_answer :: string
  q_category :: int
  q_difficulty :: int

text \<open>The relational store: the rows of each table, in the order an unordered query
  returns them.\<close>

record store =
  question_table :: "question list"
  category_table :: "category list"

subsection \<open>Python values handed to \<^verbatim>\<open>jsonify\<close>\<close>

datatype pykey = KStr string | KInt int

datatype pyval =
    PNone
  | PBool bool
  | PInt int
  | PStr string
  | PList "pyval list"
  | PDict "(pykey \<times> pyval) list"

text \<open>A response is the body given to \<^verbatim>\<open>jsonify\<close> and the HTTP status code.\<close>

type_synonym response = "pyval \<times> nat"

text \<open>Dictionary lookup by key (\<^verbatim>\<open>d.get(k)\<close>), \<open>None\<close> when the value is not a
  dictionary or has no such key.\<close>

definition dict_get :: "pyval \<Rightarrow> pykey \<Rightarrow> pyval option" where
  "dict_get d k = (case d of PDict kvs \<Rightarrow> map_of kvs k | _ \<Rightarrow> None)"

text \<open>Modelled from the spec: \<^verbatim>\<open>Question.format\<close> of \<^verbatim>\<open>models.py\<close> (not among the
  sources). Section 6: a formatted question is
  \<^verbatim>\<open>{id, question, answer, difficulty, category}\<close>.\<close>

definition format_question :: "question \<Rightarrow> pyval" where
  "format_question q = PDict
     [(KStr ''id'', PInt (q_id q)),
      (KStr ''question'', PStr (q_question q)),
      (KStr ''answer'', PStr (q_answer q)),
      (KStr ''difficulty'', PInt (q_difficulty q)),
      (KStr ''category'', PInt (q_category q))]"

text \<open>Modelled from the spec: \<^verbatim>\<open>Category.format\<close> of \<^verbatim>\<open>models.py\<close> (not among the
  sources). Section 6: a formatted category is \<^verbatim>\<open>{id, type}\<close>.\<close>

definition format_category :: "category \<Rightarrow> pyval" where
  "format_category c = PDict [(KStr ''id'', PInt (c_id c)), (KStr ''type'', PStr (c_type c))]"

subsection \<open>Exceptions\<close>

text \<open>\<open>HTTPException c\<close> is what \<^verbatim>\<open>abort(c)\<close> raises; the others are the Python and
  SQLAlchemy exceptions the handlers can meet.\<close>

datatype exn =
    HTTPException nat
  | MultipleResultsFound
  | IndexError
  | ValueError
  | KeyError
  | TypeError
  | AttributeError

subsection \<open>Requests\<close>

text \<open>
  \<open>page_arg\<close> is the result of converting the query parameter \<^verbatim>\<open>page\<close> with
  \<^verbatim>\<open>type=int\<close>: \<open>None\<close> when the parameter is absent or is not an integer literal
  (Werkzeug then returns the default). \<open>json\<close> is the parsed JSON body, \<open>None\<close> when
  the request has none.
\<close>

record 'b request =
  page_arg :: "int option"
  json :: "'b option"

section \<open>Python list primitives\<close>

text \<open>A slice bound as CPython clamps it: a negative bound counts from the end, and
  every bound is clamped into \<open>0..len\<close>.\<close>

definition slice_bound :: "nat \<Rightarrow> int \<Rightarrow> nat" where
  "slice_bound n i = (if i < 0 then nat (max (i + int n) 0) else min (nat i) n)"

definition py_slice :: "'a list \<Rightarrow> int \<Rightarrow> int \<Rightarrow> 'a list" where
  "py_slice xs start stop =
     (let lo = slice_bound (length xs) start;
          hi = slice_bound (length xs) stop
      in take (hi - lo) (drop lo xs))"

text \<open>\<^verbatim>\<open>xs[i]\<close> and \<^verbatim>\<open>del xs[i]\<close>: a negative index counts from the end, an index
  outside \<open>-len..len-1\<close> raises \<open>IndexError\<close>.\<close>

definition py_index :: "'a list \<Rightarrow> int \<Rightarrow> exn + 'a" where
  "py_index xs i =
     (let n = int (length xs); j = (if i < 0 then i + n else i)
      in if 0 \<le> j \<and> j < n then Inr (xs ! nat j) else Inl IndexError)"

definition py_del :: "'a list \<Rightarrow> int \<Rightarrow> exn + 'a list" where
  "py_del xs i =
     (let n = int (length xs); j = (if i < 0 then i + n else i)
      in if 0 \<le> j \<and> j < n then Inr (take (nat j) xs @ drop (Suc (nat j)) xs)
         else Inl IndexError)"

section \<open>Pagination\<close>

definition QUESTIONS_PER_PAGE :: int where
  "QUESTIONS_PER_PAGE = 10"

text \<open>\<^verbatim>\<open>request.args.get('page', 1, type=int)\<close>\<close>

definition requested_page :: "'b request \<Rightarrow> int" where
  "requested_page request = (case page_arg request of None \<Rightarrow> 1 | Some p \<Rightarrow> p)"

definition pagination :: "'b request \<Rightarrow> question list \<Rightarrow> pyval list" where
  "pagination request selection =
     (let page = requested_page request;
          start = (page - 1) * QUESTIONS_PER_PAGE;
          end' = start + QUESTIONS_PER_PAGE;
          questions = map format_question selection;
          current_questions = py_slice questions start end'
      in current_questions)"

section \<open>Error handlers\<close>

definition bad_req :: response where
  "bad_req = (PDict [(KStr ''success'', PBool False),
                     (KStr ''message'', PStr ''Bad request''),
                     (KStr ''error'', PInt 400)], 400)"

definition not_fond :: response where
  "not_fond = (PDict [(KStr ''success'', PBool False),
                      (KStr ''message'', PStr ''Resource not found''),
                      (KStr ''error'', PInt 404)], 404)"

definition unprocessable :: response where
  "unprocessable = (PDict [(KStr ''success'', PBool False),
                           (KStr ''error'', PInt 422),
                           (KStr ''message'', PStr ''Unprocessable'')], 422)"

definition server_error :: response where
  "server_error = (PDict [(KStr ''success'', PBool False),
                          (KStr ''message'', PStr ''Internal server error''),
                          (KStr ''error'', PInt 500)], 500)"

text \<open>
  What Flask makes of an exception that leaves a view: \<^verbatim>\<open>abort(c)\<close> goes to the handler
  registered for \<open>c\<close>, any other exception to the handler registered for 500. The
  application registers handlers for 400, 404, 422 and 500 and aborts with no other
  code; for another code Werkzeug's own page (not JSON) would be sent, written \<open>PNone\<close>.
\<close>

definition handle_exception :: "exn \<Rightarrow> response" where
  "handle_exception e =
     (case e of
        HTTPException c \<Rightarrow>
          (if c = 400 then bad_req
           else if c = 404 then not_fond
           else if c = 422 then unprocessable
           else if c = 500 then server_error
           else (PNone, c))
      | _ \<Rightarrow> server_error)"

text \<open>A view returns a response or raises, and leaves the store in some state.\<close>

definition respond :: "(exn + response) \<times> store \<Rightarrow> response \<times> store" where
  "respond r = (case fst r of Inl e \<Rightarrow> (handle_exception e, snd r)
                            | Inr resp \<Rightarrow> (resp, snd r))"

section \<open>Query primitives\<close>

text \<open>SQLAlchemy's \<^verbatim>\<open>Query.first\<close> and \<^verbatim>\<open>Query.one_or_none\<close> on the rows a query
  selects.\<close>

definition query_first :: "'a list \<Rightarrow> 'a option" where
  "query_first rows = (case rows of [] \<Rightarrow> None | r # _ \<Rightarrow> Some r)"

definition one_or_none :: "'a list \<Rightarrow> exn + 'a option" where
  "one_or_none rows =
     (case rows of
        [] \<Rightarrow> Inr None
      | [r] \<Rightarrow> Inr (Some r)
      | _ \<Rightarrow> Inl MultipleResultsFound)"

text \<open>Assignment \<^verbatim>\<open>d[k] = v\<close> on a dictionary kept as its items in insertion order: an
  existing key keeps its place and gets the new value.\<close>

fun dict_set :: "pykey \<Rightarrow> pyval \<Rightarrow> (pykey \<times> pyval) list \<Rightarrow> (pykey \<times> pyval) list" where
  "dict_set k v [] = [(k, v)]"
| "dict_set k v ((k', v') # kvs) =
     (if k' = k then (k', v) # kvs else (k', v') # dict_set k v kvs)"

text \<open>\<^verbatim>\<open>{category.id: category.type for category in categories}\<close>\<close>

definition formatted_categories :: "category list \<Rightarrow> (pykey \<times> pyval) list" where
  "formatted_categories cats =
     foldl (\<lambda>d c. dict_set (KInt (c_id c)) (PStr (c_type c)) d) [] cats"

subsection \<open>The store's ILIKE operator\<close>

text \<open>
  \<^verbatim>\<open>Question.question.ilike(pattern)\<close> is evaluated by the database: SQL \<^verbatim>\<open>LIKE\<close>
  on the case-folded operands. In a pattern \<^verbatim>\<open>%\<close> matches any sequence of
  characters, \<^verbatim>\<open>_\<close> any single character, and a backslash makes the next character
  literal; every other character matches itself. (A pattern that ends in a lone
  backslash is an error in PostgreSQL; the handler's patterns end in \<^verbatim>\<open>%\<close>, so the
  case is written as no match.) Case folding is modelled on ASCII letters.
\<close>

definition lower_char :: "char \<Rightarrow> char" where
  "lower_char c =
     (let n = (of_char c :: nat) in if 65 \<le> n \<and> n \<le> 90 then char_of (n + 32) else c)"

fun like_match :: "string \<Rightarrow> string \<Rightarrow> bool" where
  "like_match [] s = (s = [])"
| "like_match (p # ps) s =
     (if p = CHR ''%'' then
        (like_match ps s \<or> (case s of [] \<Rightarrow> False | _ # s' \<Rightarrow> like_match (p # ps) s'))
      else if p = CHR ''_'' then
        (case s of [] \<Rightarrow> False | _ # s' \<Rightarrow> like_match ps s')
      else if p = CHR 0x5C then
        (case ps of
           [] \<Rightarrow> False
         | e # ps' \<Rightarrow> (case s of [] \<Rightarrow> False | c # s' \<Rightarrow> c = e \<and> like_match ps' s'))
      else (case s of [] \<Rightarrow> False | c # s' \<Rightarrow> c = p \<and> like_match ps s'))"

definition ilike :: "string \<Rightarrow> string \<Rightarrow> bool" where
  "ilike text pattern = like_match (map lower_char pattern) (map lower_char text)"

text \<open>A search term without any of the three characters that are special in a pattern.\<close>

definition wildcard_free :: "string \<Rightarrow> bool" where
  "wildcard_free t = (CHR ''%'' \<notin> set t \<and> CHR ''_'' \<notin> set t \<and> CHR 0x5C \<notin> set t)"

section \<open>The views\<close>

subsection \<open>GET /questions\<close>

definition get_questions :: "store \<Rightarrow> 'b request \<Rightarrow> (exn + response) \<times> store" where
  "get_questions s request =
     (let selection = sort_key (\<lambda>q. (q_category q, q_id q)) (question_table s);
          current_questions = pagination request selection;
          categories = category_table s;
          formatted = formatted_categories categories
      in if length current_questions = 0 then (Inl (HTTPException 404), s)
         else (Inr (PDict [(KStr ''success'', PBool True),
                           (KStr ''questions'', PList current_questions),
                           (KStr ''total_questions'', PInt (int (length (question_table s)))),
                           (KStr ''categories'', PDict formatted)], 200), s))"

subsection \<open>DELETE /questions/<id>\<close>

text \<open>Modelled from the spec: \<^verbatim>\<open>Question.delete\<close> of \<^verbatim>\<open>models.py\<close> (not among the
  sources). Section 4.4: the question is deleted from the store; the row is identified
  by its id, the table's key. A failure of the store during the deletion is not
  modelled.\<close>

definition delete_row :: "question \<Rightarrow> store \<Rightarrow> store" where
  "delete_row q s = s\<lparr>question_table := filter (\<lambda>r. q_id r \<noteq> q_id q) (question_table s)\<rparr>"

text \<open>The body of the \<^verbatim>\<open>try\<close> block.\<close>

definition delete_question_try :: "store \<Rightarrow> 'b request \<Rightarrow> int \<Rightarrow> (exn + response) \<times> store" where
  "delete_question_try s request question_id =
     (case one_or_none (filter (\<lambda>q. q_id q = question_id) (question_table s)) of
        Inl e \<Rightarrow> (Inl e, s)
      | Inr None \<Rightarrow> (Inl (HTTPException 404), s)
      | Inr (Some question) \<Rightarrow>
          (let s' = delete_row question s;
               selection = sort_key q_id (question_table s');
               current_questions = pagination request selection
           in (Inr (PDict [(KStr ''success'', PBool True),
                           (KStr ''deleted'', PInt (q_id question)),
                           (KStr ''question'', PList current_questions),
                           (KStr ''total_questions'', PInt (int (length (question_table s'))))],
                    200), s')))"

text \<open>The bare \<^verbatim>\<open>except:\<close> catches every exception of the block, the one raised by
  \<^verbatim>\<open>abort(404)\<close> included, and aborts with 422.\<close>

definition delete_question :: "store \<Rightarrow> 'b request \<Rightarrow> int \<Rightarrow> (exn + response) \<times> store" where
  "delete_question s request question_id =
     (case delete_question_try s request question_id of
        (Inl e, s') \<Rightarrow> (Inl (HTTPException 422), s')
      | (Inr r, s') \<Rightarrow> (Inr r, s'))"

subsection \<open>POST /search\<close>

record search_body =
  searchTerm :: "string option"

text \<open>The f-string \<^verbatim>\<open>f'%{search_term}%'\<close>: \<^verbatim>\<open>data.get('searchTerm')\<close> is \<open>None\<close> when
  the key is absent, and \<open>None\<close> is formatted as the text \<^verbatim>\<open>None\<close>.\<close>

definition search_pattern :: "string option \<Rightarrow> string" where
  "search_pattern search_term =
     ''%'' @ (case search_term of None \<Rightarrow> ''None'' | Some t \<Rightarrow> t) @ ''%''"

definition search_questions_try :: "store \<Rightarrow> search_body request \<Rightarrow> exn + response" where
  "search_questions_try s request =
     (case json request of
        None \<Rightarrow> Inl AttributeError
      | Some data \<Rightarrow>
          (let search_term = searchTerm data;
               result = filter (\<lambda>q. ilike (q_question q) (search_pattern search_term))
                          (question_table s)
           in if length result = 0 then Inl (HTTPException 404)
              else
                (let formatted_questions = map format_question result;
                     current_questions = pagination request result;
                     category = concat (map (\<lambda>question.
                        map format_category
                          (filter (\<lambda>c. dict_get question (KStr ''category'') = Some (PInt (c_id c)))
                             (category_table s))) current_questions)
                 in Inr (PDict [(KStr ''success'', PBool True),
                                (KStr ''questions'', PList formatted_questions),
                                (KStr ''total_questions'', PInt (int (length formatted_questions))),
                                (KStr ''current_category'', PList category)], 200))))"

definition search_questions :: "store \<Rightarrow> search_body request \<Rightarrow> (exn + response) \<times> store" where
  "search_questions s request =
     (case search_questions_try s request of
        Inl e \<Rightarrow> (Inl (HTTPException 404), s)
      | Inr r \<Rightarrow> (Inr r, s))"

subsection \<open>GET /categories/<id>/questions\<close>

definition get_questions_by_category ::
  "store \<Rightarrow> 'b request \<Rightarrow> int \<Rightarrow> (exn + response) \<times> store" where
  "get_questions_by_category s request category_id =
     (let selection = filter (\<lambda>q. q_category q = category_id) (question_table s);
          current_questions = pagination request selection;
          total_questions = length (question_table s)
      in case one_or_none (filter (\<lambda>c. c_id c = category_id) (category_table s)) of
           Inl e \<Rightarrow> (Inl e, s)
         | Inr None \<Rightarrow> (Inl (HTTPException 404), s)
         | Inr (Some category) \<Rightarrow>
             (Inr (PDict [(KStr ''questions'', PList current_questions),
                          (KStr ''total_questions'', PInt (int total_questions)),
                          (KStr ''current_category'', PStr (c_type category))], 200), s))"

subsection \<open>POST /quizzes\<close>

record quiz_category_obj =
  qc_id :: "int option"

record quiz_body =
  previous_questions :: "int list option"
  quiz_category :: "quiz_category_obj option"

text \<open>The first \<^verbatim>\<open>try\<close> block: \<^verbatim>\<open>data["previous_questions"]\<close> and
  \<^verbatim>\<open>data["quiz_category"]["id"]\<close>. Subscripting \<open>None\<close> raises \<open>TypeError\<close>, a missing
  key \<open>KeyError\<close>.\<close>

definition quiz_fields :: "quiz_body request \<Rightarrow> exn + (int list \<times> int)" where
  "quiz_fields request =
     (case json request of
        None \<Rightarrow> Inl TypeError
      | Some data \<Rightarrow>
          (case previous_questions data of
             None \<Rightarrow> Inl KeyError
           | Some prev \<Rightarrow>
               (case quiz_category data of
                  None \<Rightarrow> Inl KeyError
                | Some qc \<Rightarrow>
                    (case qc_id qc of
                       None \<Rightarrow> Inl KeyError
                     | Some quiz_category_id \<Rightarrow> Inr (prev, quiz_category_id)))))"

text \<open>
  The in-place filter:
  \<^verbatim>\<open>
  i = 0
  while i < len(questions):
    if questions[i].id in previous_questions:
      del questions[i]
      i-=1
    i+=1
  \<close>
\<close>

function quiz_loop :: "int \<Rightarrow> question list \<Rightarrow> int list \<Rightarrow> exn + question list" where
  "quiz_loop i questions prev =
     (if i < int (length questions) then
        (case py_index questions i of
           Inl e \<Rightarrow> Inl e
         | Inr q \<Rightarrow>
             if q_id q \<in> set prev then
               (case py_del questions i of
                  Inl e \<Rightarrow> Inl e
                | Inr questions' \<Rightarrow> quiz_loop (i - 1 + 1) questions' prev)
             else quiz_loop (i + 1) questions prev)
      else Inr questions)"
  by pat_completeness auto
termination
proof (relation "measure (\<lambda>(i, questions, prev). nat (int (length questions) - i))")
  show "wf (measure (\<lambda>(i, questions, prev). nat (int (length questions) - i)))"
    by simp
next
  fix i :: int and questions :: "question list" and prev :: "int list" and q questions'
  assume "i < int (length questions)" and "py_del questions i = Inr questions'"
  then have "length questions' + 1 = length questions"
    by (auto simp: py_del_def Let_def split: if_splits)
  then show "((i - 1 + 1, questions', prev), i, questions, prev)
        \<in> measure (\<lambda>(i, questions, prev). nat (int (length questions) - i))"
    using \<open>i < int (length questions)\<close> by simp
next
  fix i :: int and questions :: "question list" and prev :: "int list"
  assume "i < int (length questions)"
  then show "((i + 1, questions, prev), i, questions, prev)
        \<in> measure (\<lambda>(i, questions, prev). nat (int (length questions) - i))"
    by simp
qed

text \<open>
  \<^verbatim>\<open>random.randint(a, b)\<close>: raises \<open>ValueError\<close> on an empty range, and otherwise
  returns what the generator \<open>rnd\<close> draws. The library promises a value between
  \<open>a\<close> and \<open>b\<close>, both included, which is \<open>randint_contract\<close>.
\<close>

definition randint :: "(int \<Rightarrow> int \<Rightarrow> int) \<Rightarrow> int \<Rightarrow> int \<Rightarrow> exn + int" where
  "randint rnd a b = (if b < a then Inl ValueError else Inr (rnd a b))"

definition randint_contract :: "(int \<Rightarrow> int \<Rightarrow> int) \<Rightarrow> bool" where
  "randint_contract rnd = (\<forall>a b. a \<le> b \<longrightarrow> a \<le> rnd a b \<and> rnd a b \<le> b)"

text \<open>The candidate pool: the questions of the category when the id names one, all
  questions otherwise.\<close>

definition quiz_pool :: "store \<Rightarrow> int \<Rightarrow> question list" where
  "quiz_pool s quiz_category_id =
     (case query_first (filter (\<lambda>c. c_id c = quiz_category_id) (category_table s)) of
        Some category \<Rightarrow> filter (\<lambda>q. q_category q = c_id category) (question_table s)
      | None \<Rightarrow> question_table s)"

text \<open>
  The selection after the filter:
  \<^verbatim>\<open>
  if len(questions) == 0:
    random_question = ""
  else:
    random_question = questions[random.randint(0, len(questions)-1)].format()
  \<close>
\<close>

definition quiz_pick :: "(int \<Rightarrow> int \<Rightarrow> int) \<Rightarrow> question list \<Rightarrow> exn + pyval" where
  "quiz_pick rnd questions =
     (if length questions = 0 then Inr (PStr [])
      else
        (case randint rnd 0 (int (length questions) - 1) of
           Inl e \<Rightarrow> Inl e
         | Inr r \<Rightarrow>
             (case py_index questions r of
                Inl e \<Rightarrow> Inl e
              | Inr q \<Rightarrow> Inr (format_question q))))"

definition quiz ::
  "(int \<Rightarrow> int \<Rightarrow> int) \<Rightarrow> store \<Rightarrow> quiz_body request \<Rightarrow> (exn + response) \<times> store" where
  "quiz rnd s request =
     (case quiz_fields request of
        Inl e \<Rightarrow> (Inl (HTTPException 400), s)
      | Inr (previous, quiz_category_id) \<Rightarrow>
          (case quiz_loop 0 (quiz_pool s quiz_category_id) previous of
             Inl e \<Rightarrow> (Inl e, s)
           | Inr questions \<Rightarrow>
               (case quiz_pick rnd questions of
                  Inl e \<Rightarrow> (Inl e, s)
                | Inr random_question \<Rightarrow>
                    (Inr (PDict [(KStr ''success'', PBool True),
                                 (KStr ''question'', random_question)], 200), s))))"

subsection \<open>The filter as the specification words it\<close>

text \<open>Section 4.8, step 3: remove from the candidate pool every question whose id
  appears in \<^verbatim>\<open>previous_questions\<close>; a straightforward filter producing a new sequence
  of the eligible candidates (section 9).\<close>

definition quiz_filter_spec :: "question list \<Rightarrow> int list \<Rightarrow> question list" where
  "quiz_filter_spec questions prev = filter (\<lambda>q. q_id q \<notin> set prev) questions"

section \<open>Sample data\<close>

text \<open>Concrete questions, stores and requests on which the theorems below are
  instantiated and the views are evaluated.\<close>

definition sample_question :: "int \<Rightarrow> question" where
  "sample_question i =
     \<lparr>q_id = i, q_question = ''abc'', q_answer = ''x'', q_category = 1, q_difficulty = 1\<rparr>"

text \<open>Eleven questions (two pages) and a request for a given page.\<close>

definition eleven_questions :: "question list" where
  "eleven_questions = map sample_question [1, 2, 3, 4, 5, 6, 7, 8, 9, 10, 11]"

definition page_request :: "int \<Rightarrow> unit request" where
  "page_request p = \<lparr>page_arg = Some p, json = None\<rparr>"

text \<open>Two generators that keep the promise of \<^verbatim>\<open>random.randint\<close>: the lowest and the
  highest value of the range.\<close>

definition first_draw :: "int \<Rightarrow> int \<Rightarrow> int" where
  "first_draw a b = a"

definition last_draw :: "int \<Rightarrow> int \<Rightarrow> int" where
  "last_draw a b = b"

text \<open>Three questions of category 1 and two categories, the second without questions.\<close>

definition sample_store :: store where
  "sample_store =
     \<lparr>question_table = map sample_question [1, 2, 3],
      category_table = [\<lparr>c_id = 1, c_type = ''Science''\<rparr>, \<lparr>c_id = 2, c_type = ''Art''\<rparr>]\<rparr>"

text \<open>Quiz requests: a body with both fields, and a body without \<^verbatim>\<open>quiz_category\<close>.\<close>

definition quiz_request :: "int list \<Rightarrow> int \<Rightarrow> quiz_body request" where
  "quiz_request prev cid =
     \<lparr>page_arg = None,
      json = Some \<lparr>previous_questions = Some prev, quiz_category = Some \<lparr>qc_id = Some cid\<rparr>\<rparr>\<rparr>"

definition quiz_request_no_category :: "quiz_body request" where
  "quiz_request_no_category =
     \<lparr>page_arg = None, json = Some \<lparr>previous_questions = Some [], quiz_category = None\<rparr>\<rparr>"

text \<open>A request with no \<^verbatim>\<open>page\<close> parameter and no body.\<close>

definition plain_request :: "unit request" where
  "plain_request = \<lparr>page_arg = None, json = None\<rparr>"

text \<open>Questions of a given category, stored in an order that is not the order of
  (category, id).\<close>

definition question_in :: "int \<Rightarrow> int \<Rightarrow> question" where
  "question_in cat i =
     \<lparr>q_id = i, q_question = ''abc'', q_answer = ''x'', q_category = cat, q_difficulty = 1\<rparr>"

definition unordered_store :: store where
  "unordered_store =
     \<lparr>question_table = [question_in 2 3, question_in 2 1, question_in 1 2],
      category_table = [\<lparr>c_id = 1, c_type = ''Science''\<rparr>, \<lparr>c_id = 2, c_type = ''Art''\<rparr>]\<rparr>"

text \<open>A search request with the given term.\<close>

definition search_request :: "string \<Rightarrow> search_body request" where
  "search_request t = \<lparr>page_arg = None, json = Some \<lparr>searchTerm = Some t\<rparr>\<rparr>"

section \<open>Pagination: the slice of a page\<close>

lemma slice_bound_step: "slice_bound n (i + 10) \<le> slice_bound n i + 10"
  by (simp add: slice_bound_def) linarith

lemma py_slice_length_le: "length (py_slice xs a (a + 10)) \<le> 10"
  using slice_bound_step [of "length xs" a] by (simp add: py_slice_def Let_def)

lemma take_drop_clamp:
  assumes "A \<le> B"
  shows "take (min B (length xs) - min A (length xs)) (drop (min A (length xs)) xs)
         = take (B - A) (drop A xs)"
proof (cases "A \<le> length xs")
  case True
  show ?thesis
  proof (cases "B \<le> length xs")
    case True
    with assms show ?thesis by (simp add: min_def)
  next
    case False
    with True assms show ?thesis by (simp add: min_def)
  qed
next
  case False
  then show ?thesis by simp
qed

lemma py_slice_nonneg:
  assumes "0 \<le> a" "a \<le> b"
  shows "py_slice xs a b = take (nat b - nat a) (drop (nat a) xs)"
proof -
  have "nat a \<le> nat b" using assms by simp
  from take_drop_clamp [OF this, of xs] show ?thesis
    using assms by (simp add: py_slice_def slice_bound_def Let_def)
qed

lemma pagination_length_le: "length (pagination request selection) \<le> 10"
  unfolding pagination_def QUESTIONS_PER_PAGE_def Let_def by (rule py_slice_length_le)

lemma pagination_positive_page:
  assumes "1 \<le> requested_page request"
  shows "pagination request selection =
         take 10 (drop (nat ((requested_page request - 1) * 10)) (map format_question selection))"
proof -
  let ?s = "(requested_page request - 1) * 10"
  have s0: "0 \<le> ?s" using assms by simp
  have d: "nat (?s + 10) - nat ?s = 10" using s0 by linarith
  have "py_slice (map format_question selection) ?s (?s + 10)
        = take (nat (?s + 10) - nat ?s) (drop (nat ?s) (map format_question selection))"
    using s0 by (intro py_slice_nonneg) simp_all
  then show ?thesis unfolding d
    by (simp add: pagination_def QUESTIONS_PER_PAGE_def Let_def)
qed

lemma pagination_page_zero:
  assumes "requested_page request = 0"
  shows "pagination request selection = []"
  using assms by (simp add: pagination_def QUESTIONS_PER_PAGE_def Let_def py_slice_def slice_bound_def)

text \<open>
  C2 (as amended). For every request and every sequence of records the helper returns at
  most 10 records. For a page number \<open>p \<ge> 1\<close> it returns exactly the records at the
  positions \<open>(p-1)*10\<close> (included) to \<open>(p-1)*10 + 10\<close> (excluded) of the formatted
  sequence; when the sequence has a record at position \<open>(p-1)*10\<close>, that record is the
  first of the page; when it has none (the page is past the end), the page is empty.
  Page 0 is empty. Nothing is promised of a negative page number: its slice bounds are
  negative and count from the end of the sequence.
\<close>

theorem pagination_page_slice:
  "length (pagination request selection) \<le> 10 \<and>
   (1 \<le> requested_page request \<longrightarrow>
      pagination request selection =
        take 10 (drop (nat ((requested_page request - 1) * 10)) (map format_question selection)) \<and>
      (nat ((requested_page request - 1) * 10) < length selection \<longrightarrow>
         pagination request selection \<noteq> [] \<and>
         pagination request selection ! 0 =
           format_question (selection ! nat ((requested_page request - 1) * 10))) \<and>
      (length selection \<le> nat ((requested_page request - 1) * 10) \<longrightarrow>
         pagination request selection = [])) \<and>
   (requested_page request = 0 \<longrightarrow> pagination request selection = [])"
proof (intro conjI impI)
  show "length (pagination request selection) \<le> 10" by (rule pagination_length_le)
next
  assume "1 \<le> requested_page request"
  then show "pagination request selection =
        take 10 (drop (nat ((requested_page request - 1) * 10)) (map format_question selection))"
    by (rule pagination_positive_page)
next
  assume p: "1 \<le> requested_page request"
    and lt: "nat ((requested_page request - 1) * 10) < length selection"
  from lt show "pagination request selection \<noteq> []"
    unfolding pagination_positive_page [OF p] by simp
  from lt show "pagination request selection ! 0 =
           format_question (selection ! nat ((requested_page request - 1) * 10))"
    unfolding pagination_positive_page [OF p] by simp
next
  assume p: "1 \<le> requested_page request"
    and "length selection \<le> nat ((requested_page request - 1) * 10)"
  then show "pagination request selection = []"
    unfolding pagination_positive_page [OF p] by simp
next
  assume "requested_page request = 0"
  then show "pagination request selection = []" by (rule pagination_page_zero)
qed

text \<open>Eleven records: page 2 holds the eleventh, page 3 is empty, page 1 holds ten.\<close>

theorem pagination_page_slice_witness:
  "pagination (page_request 2) eleven_questions = [format_question (sample_question 11)] \<and>
   pagination (page_request 3) eleven_questions = [] \<and>
   length (pagination (page_request 1) eleven_questions) = 10"
proof -
  have n: "length eleven_questions = 11" by (simp add: eleven_questions_def)
  have p: "requested_page (page_request k) = k" for k
    by (simp add: requested_page_def page_request_def)
  from pagination_page_slice [of "page_request 2" eleven_questions]
  have "pagination (page_request 2) eleven_questions =
        take 10 (drop 10 (map format_question eleven_questions))"
    by (simp add: p)
  then have a: "pagination (page_request 2) eleven_questions = [format_question (sample_question 11)]"
    by (simp add: eleven_questions_def)
  from pagination_page_slice [of "page_request 3" eleven_questions]
  have b: "pagination (page_request 3) eleven_questions = []"
    by (simp add: p n)
  from pagination_page_slice [of "page_request 1" eleven_questions]
  have "pagination (page_request 1) eleven_questions = take 10 (map format_question eleven_questions)"
    by (simp add: p)
  then have c: "length (pagination (page_request 1) eleven_questions) = 10"
    by (simp add: n)
  from a b c show ?thesis by simp
qed

text \<open>
  C2 as stated fails for a page number below zero: page \<open>-1\<close> of eleven records is out of
  range, and the helper returns the first record (the slice \<^verbatim>\<open>questions[-20:-10]\<close>).
\<close>

theorem pagination_negative_page_counterexample:
  "requested_page (page_request (- 1)) = - 1 \<and>
   pagination (page_request (- 1)) eleven_questions = [format_question (sample_question 1)]"
proof -
  have p: "requested_page (page_request (- 1)) = - 1"
    by (simp add: requested_page_def page_request_def)
  have n: "length eleven_questions = 11" by (simp add: eleven_questions_def)
  have "pagination (page_request (- 1)) eleven_questions =
        take 1 (map format_question eleven_questions)"
    by (simp add: pagination_def p QUESTIONS_PER_PAGE_def py_slice_def slice_bound_def n)
  also have "\<dots> = [format_question (sample_question 1)]"
    by (simp add: eleven_questions_def)
  finally show ?thesis using p by simp
qed

section \<open>The quiz filter\<close>

lemma py_index_in_range:
  "0 \<le> i \<Longrightarrow> i < int (length xs) \<Longrightarrow> py_index xs i = Inr (xs ! nat i)"
  by (simp add: py_index_def Let_def)

lemma py_del_in_range:
  "0 \<le> i \<Longrightarrow> i < int (length xs) \<Longrightarrow>
   py_del xs i = Inr (take (nat i) xs @ drop (Suc (nat i)) xs)"
  by (simp add: py_del_def Let_def)

lemma quiz_loop_from:
  "0 \<le> i \<Longrightarrow> i \<le> int (length questions) \<Longrightarrow>
   quiz_loop i questions prev =
     Inr (take (nat i) questions @ filter (\<lambda>q. q_id q \<notin> set prev) (drop (nat i) questions))"
proof (induction i questions prev rule: quiz_loop.induct)
  case (1 i questions prev)
  let ?n = "nat i"
  show ?case
  proof (cases "i < int (length questions)")
    case False
    with "1.prems" have "?n = length questions" by simp
    with False show ?thesis by (subst quiz_loop.simps) simp
  next
    case True
    then have lt: "?n < length questions" using "1.prems" by simp
    have idx: "py_index questions i = Inr (questions ! ?n)"
      using True "1.prems" by (simp add: py_index_in_range)
    have split: "drop ?n questions = questions ! ?n # drop (Suc ?n) questions"
      using lt by (simp add: Cons_nth_drop_Suc)
    show ?thesis
    proof (cases "q_id (questions ! ?n) \<in> set prev")
      case seen: True
      let ?qs' = "take ?n questions @ drop (Suc ?n) questions"
      have del: "py_del questions i = Inr ?qs'"
        using True "1.prems" by (simp add: py_del_in_range)
      have len: "i - 1 + 1 \<le> int (length ?qs')" using lt by simp
      have "quiz_loop (i - 1 + 1) ?qs' prev =
            Inr (take (nat (i - 1 + 1)) ?qs' @
                 filter (\<lambda>q. q_id q \<notin> set prev) (drop (nat (i - 1 + 1)) ?qs'))"
        using "1.IH"(1) [OF True idx seen del] "1.prems"(1) len by simp
      moreover have "take ?n ?qs' = take ?n questions" using lt by simp
      moreover have "drop ?n ?qs' = drop (Suc ?n) questions" using lt by simp
      ultimately have "quiz_loop (i - 1 + 1) ?qs' prev =
            Inr (take ?n questions @ filter (\<lambda>q. q_id q \<notin> set prev) (drop (Suc ?n) questions))"
        by simp
      then show ?thesis
        using True idx seen del split by (subst quiz_loop.simps) simp
    next
      case fresh: False
      have "quiz_loop (i + 1) questions prev =
            Inr (take (nat (i + 1)) questions @
                 filter (\<lambda>q. q_id q \<notin> set prev) (drop (nat (i + 1)) questions))"
        using "1.IH"(2) [OF True idx fresh] "1.prems" True by simp
      moreover have "nat (i + 1) = Suc ?n" using "1.prems" by simp
      moreover have "take (Suc ?n) questions = take ?n questions @ [questions ! ?n]"
        using lt by (simp add: take_Suc_conv_app_nth)
      ultimately have "quiz_loop (i + 1) questions prev =
            Inr (take ?n questions @ questions ! ?n #
                 filter (\<lambda>q. q_id q \<notin> set prev) (drop (Suc ?n) questions))"
        by simp
      then show ?thesis
        using True idx fresh split by (subst quiz_loop.simps) simp
    qed
  qed
qed

text \<open>
  C9. The in-place deletion loop of the quiz view, started at index 0, returns (without
  raising) exactly the list a plain filter returns: the questions whose id is not in
  \<^verbatim>\<open>previous_questions\<close>, in their original order, for every list of questions and every
  sequence of previous ids.
\<close>

theorem quiz_loop_is_filter:
  "quiz_loop 0 questions previous = Inr (quiz_filter_spec questions previous)"
  using quiz_loop_from [of 0 questions previous] by (simp add: quiz_filter_spec_def)

text \<open>The loop on four questions with ids 1, 2, 3, 2 and previous ids 2 and 7.\<close>

theorem quiz_loop_is_filter_witness:
  "quiz_loop 0 (map sample_question [1, 2, 3, 2]) [2, 7] = Inr [sample_question 1, sample_question 3]"
  using quiz_loop_is_filter [of "map sample_question [1, 2, 3, 2]" "[2, 7]"]
  by (simp add: quiz_filter_spec_def sample_question_def)

section \<open>The quiz view\<close>

lemma randint_in_range:
  assumes "randint_contract rnd" "a \<le> b"
  shows "randint rnd a b = Inr (rnd a b) \<and> a \<le> rnd a b \<and> rnd a b \<le> b"
  using assms by (simp add: randint_def randint_contract_def)

lemma quiz_pick_nonempty:
  assumes "randint_contract rnd" "questions \<noteq> []"
  shows "0 \<le> rnd 0 (int (length questions) - 1)"
    and "rnd 0 (int (length questions) - 1) < int (length questions)"
    and "quiz_pick rnd questions =
         Inr (format_question (questions ! nat (rnd 0 (int (length questions) - 1))))"
proof -
  let ?r = "rnd 0 (int (length questions) - 1)"
  have le: "(0::int) \<le> int (length questions) - 1" using assms(2) by (cases questions) simp_all
  from randint_in_range [OF assms(1) le]
  have r: "randint rnd 0 (int (length questions) - 1) = Inr ?r" "0 \<le> ?r" "?r \<le> int (length questions) - 1"
    by simp_all
  show "0 \<le> ?r" by (rule r(2))
  show lt: "?r < int (length questions)" using r(3) by simp
  show "quiz_pick rnd questions = Inr (format_question (questions ! nat ?r))"
    using assms(2) r(1) py_index_in_range [OF r(2) lt] by (simp add: quiz_pick_def)
qed

text \<open>
  C10. The indexing used for the random selection is in bounds. With a generator that
  keeps the promise of \<^verbatim>\<open>random.randint\<close>, an empty filtered list is answered with the
  empty string without any indexing, and for a non-empty list the drawn index lies
  between 0 and \<open>len - 1\<close>, the access \<^verbatim>\<open>questions[index]\<close> returns an element and the
  selection raises nothing.
\<close>

theorem quiz_pick_index_in_bounds:
  assumes "randint_contract rnd"
  shows "(questions = [] \<longrightarrow> quiz_pick rnd questions = Inr (PStr [])) \<and>
         (questions \<noteq> [] \<longrightarrow>
            0 \<le> rnd 0 (int (length questions) - 1) \<and>
            rnd 0 (int (length questions) - 1) \<le> int (length questions) - 1 \<and>
            py_index questions (rnd 0 (int (length questions) - 1)) =
              Inr (questions ! nat (rnd 0 (int (length questions) - 1))) \<and>
            quiz_pick rnd questions =
              Inr (format_question (questions ! nat (rnd 0 (int (length questions) - 1)))))"
proof (cases "questions = []")
  case True
  then show ?thesis by (simp add: quiz_pick_def)
next
  case False
  from quiz_pick_nonempty [OF assms False] py_index_in_range [of "rnd 0 (int (length questions) - 1)" questions]
  show ?thesis using False by simp
qed

text \<open>The selection with the generator that draws the highest index, on three questions
  and on none.\<close>

theorem quiz_pick_index_in_bounds_witness:
  "randint_contract last_draw \<and>
   quiz_pick last_draw (map sample_question [1, 2, 3]) = Inr (format_question (sample_question 3)) \<and>
   quiz_pick last_draw [] = Inr (PStr [])"
proof -
  have c: "randint_contract last_draw" by (simp add: randint_contract_def last_draw_def)
  from quiz_pick_index_in_bounds [OF c, of "map sample_question [1, 2, 3]"]
       quiz_pick_index_in_bounds [OF c, of "[]"]
  show ?thesis using c by (simp add: last_draw_def)
qed

lemma format_question_inj_id: "format_question q = format_question q' \<Longrightarrow> q_id q = q_id q'"
  by (simp add: format_question_def)

lemma format_question_not_empty_string: "format_question q \<noteq> PStr s"
  by (simp add: format_question_def)

lemma quiz_fields_valid:
  "json request = Some \<lparr>previous_questions = Some prev, quiz_category = Some \<lparr>qc_id = Some cid\<rparr>\<rparr>
   \<Longrightarrow> quiz_fields request = Inr (prev, cid)"
  by (simp add: quiz_fields_def)

lemma quiz_valid_request:
  assumes "randint_contract rnd"
    and "json request = Some \<lparr>previous_questions = Some prev, quiz_category = Some \<lparr>qc_id = Some cid\<rparr>\<rparr>"
  shows "quiz rnd s request =
     (case quiz_pick rnd (filter (\<lambda>q. q_id q \<notin> set prev) (quiz_pool s cid)) of
        Inl e \<Rightarrow> (Inl e, s)
      | Inr v \<Rightarrow> (Inr (PDict [(KStr ''success'', PBool True), (KStr ''question'', v)], 200), s))"
  using quiz_fields_valid [OF assms(2)] quiz_loop_from [of 0 "quiz_pool s cid" prev]
  by (simp add: quiz_def)

text \<open>
  C1. For a quiz request whose body has both fields (and a generator that keeps the
  promise of \<^verbatim>\<open>random.randint\<close>), the view answers 200 with \<^verbatim>\<open>success\<close> true and a
  \<^verbatim>\<open>question\<close> value \<open>v\<close>, the store unchanged. When every question of the candidate pool
  has its id in \<^verbatim>\<open>previous_questions\<close>, \<open>v\<close> is the empty string; otherwise \<open>v\<close> is the
  formatted record of a question of the pool whose id is not in \<^verbatim>\<open>previous_questions\<close>.
  In no case is \<open>v\<close> the formatted record of a question whose id is in
  \<^verbatim>\<open>previous_questions\<close>.
\<close>

theorem quiz_excludes_previous_questions:
  assumes "randint_contract rnd"
    and "json request = Some \<lparr>previous_questions = Some prev, quiz_category = Some \<lparr>qc_id = Some cid\<rparr>\<rparr>"
  shows "\<exists>v. quiz rnd s request =
               (Inr (PDict [(KStr ''success'', PBool True), (KStr ''question'', v)], 200), s) \<and>
             (if \<forall>q \<in> set (quiz_pool s cid). q_id q \<in> set prev then v = PStr []
              else \<exists>q \<in> set (quiz_pool s cid). q_id q \<notin> set prev \<and> v = format_question q) \<and>
             (\<forall>q. v = format_question q \<longrightarrow> q_id q \<notin> set prev)"
proof -
  let ?rest = "filter (\<lambda>q. q_id q \<notin> set prev) (quiz_pool s cid)"
  show ?thesis
  proof (cases "?rest = []")
    case True
    then have all: "\<forall>q \<in> set (quiz_pool s cid). q_id q \<in> set prev"
      by (simp add: filter_empty_conv)
    have "quiz_pick rnd ?rest = Inr (PStr [])" using True by (simp add: quiz_pick_def)
    then have a: "quiz rnd s request =
        (Inr (PDict [(KStr ''success'', PBool True), (KStr ''question'', PStr [])], 200), s)"
      using quiz_valid_request [OF assms, of s] by simp
    have c: "\<forall>q. PStr [] = format_question q \<longrightarrow> q_id q \<notin> set prev"
      by (simp add: format_question_def)
    show ?thesis
      apply (rule exI [of _ "PStr []"])
      apply (intro conjI)
        apply (rule a)
       apply (subst if_P [OF all])
       apply (rule refl)
      apply (rule c)
      done
  next
    case False
    let ?r = "nat (rnd 0 (int (length ?rest) - 1))"
    from quiz_pick_nonempty [OF assms(1) False]
    have lt: "?r < length ?rest" and pick: "quiz_pick rnd ?rest = Inr (format_question (?rest ! ?r))"
      by simp_all
    have mem: "?rest ! ?r \<in> set ?rest" using lt by (rule nth_mem)
    then have in_pool: "?rest ! ?r \<in> set (quiz_pool s cid)" and fresh: "q_id (?rest ! ?r) \<notin> set prev"
      by simp_all
    have a: "quiz rnd s request =
        (Inr (PDict [(KStr ''success'', PBool True),
                     (KStr ''question'', format_question (?rest ! ?r))], 200), s)"
      using quiz_valid_request [OF assms, of s] pick by simp
    have b: "\<not> (\<forall>q \<in> set (quiz_pool s cid). q_id q \<in> set prev)"
      using in_pool fresh by (rule_tac notI) (drule bspec, assumption, erule notE, assumption)
    have c: "\<forall>q. format_question (?rest ! ?r) = format_question q \<longrightarrow> q_id q \<notin> set prev"
    proof (intro allI impI)
      fix q assume "format_question (?rest ! ?r) = format_question q"
      then have "q_id (?rest ! ?r) = q_id q" by (rule format_question_inj_id)
      with fresh show "q_id q \<notin> set prev" by simp
    qed
    have d: "\<exists>q \<in> set (quiz_pool s cid). q_id q \<notin> set prev \<and>
                format_question (?rest ! ?r) = format_question q"
      using in_pool fresh by (intro bexI [of _ "?rest ! ?r"] conjI refl)
    show ?thesis
      apply (rule exI [of _ "format_question (?rest ! ?r)"])
      apply (intro conjI)
        apply (rule a)
       apply (simp only: b if_False)
       apply (rule d)
      apply (rule c)
      done
  qed
qed


text \<open>Two requests on the sample store: question 1 already asked in category 1, and all
  three asked with a category id that names no category.\<close>

theorem quiz_excludes_previous_questions_witness:
  "randint_contract first_draw \<and>
   quiz first_draw sample_store (quiz_request [1] 1) =
     (Inr (PDict [(KStr ''success'', PBool True),
                  (KStr ''question'', format_question (sample_question 2))], 200), sample_store) \<and>
   quiz first_draw sample_store (quiz_request [1, 2, 3] 5) =
     (Inr (PDict [(KStr ''success'', PBool True), (KStr ''question'', PStr [])], 200), sample_store)"
proof -
  have c: "randint_contract first_draw" by (simp add: randint_contract_def first_draw_def)
  have r1: "json (quiz_request [1] 1) =
      Some \<lparr>previous_questions = Some [1], quiz_category = Some \<lparr>qc_id = Some 1\<rparr>\<rparr>"
    by (simp add: quiz_request_def)
  have r2: "json (quiz_request [1, 2, 3] 5) =
      Some \<lparr>previous_questions = Some [1, 2, 3], quiz_category = Some \<lparr>qc_id = Some 5\<rparr>\<rparr>"
    by (simp add: quiz_request_def)
  have p1: "quiz_pool sample_store 1 = map sample_question [1, 2, 3]"
    by (simp add: quiz_pool_def sample_store_def query_first_def sample_question_def)
  have p2: "quiz_pool sample_store 5 = map sample_question [1, 2, 3]"
    by (simp add: quiz_pool_def sample_store_def query_first_def)
  have seen: "\<forall>q \<in> set (quiz_pool sample_store 5). q_id q \<in> set [1, 2, 3]"
    unfolding p2 by (simp add: sample_question_def)
  from quiz_excludes_previous_questions [OF c r2, of sample_store]
  obtain v where e: "quiz first_draw sample_store (quiz_request [1, 2, 3] 5) =
       (Inr (PDict [(KStr ''success'', PBool True), (KStr ''question'', v)], 200), sample_store)"
    and i: "if \<forall>q \<in> set (quiz_pool sample_store 5). q_id q \<in> set [1, 2, 3] then v = PStr []
            else \<exists>q \<in> set (quiz_pool sample_store 5). q_id q \<notin> set [1, 2, 3] \<and> v = format_question q"
    by blast
  from i have "v = PStr []" unfolding if_P [OF seen] .
  with e have w: "quiz first_draw sample_store (quiz_request [1, 2, 3] 5) =
       (Inr (PDict [(KStr ''success'', PBool True), (KStr ''question'', PStr [])], 200), sample_store)"
    by simp
  have rest: "filter (\<lambda>q. q_id q \<notin> set [1]) (map sample_question [1, 2, 3]) =
              [sample_question 2, sample_question 3]"
    by (simp add: sample_question_def)
  have "quiz_pick first_draw [sample_question 2, sample_question 3] =
        Inr (format_question (sample_question 2))"
    by (simp add: quiz_pick_def randint_def first_draw_def py_index_def)
  then have "quiz first_draw sample_store (quiz_request [1] 1) =
     (Inr (PDict [(KStr ''success'', PBool True),
                  (KStr ''question'', format_question (sample_question 2))], 200), sample_store)"
    using quiz_valid_request [OF c r1, of sample_store] unfolding p1 rest by simp
  then show ?thesis using c w by simp
qed

text \<open>
  C8. A quiz request without a JSON body, or whose body lacks \<^verbatim>\<open>previous_questions\<close> or
  \<^verbatim>\<open>quiz_category\<close>, is answered by the handler for 400 (status 400, \<^verbatim>\<open>success\<close> false),
  and the store is left as it was.
\<close>

theorem quiz_missing_field_bad_request:
  assumes "case json request of None \<Rightarrow> True
           | Some data \<Rightarrow> previous_questions data = None \<or> quiz_category data = None"
  shows "respond (quiz rnd s request) = (bad_req, s) \<and> snd bad_req = 400 \<and>
         dict_get (fst bad_req) (KStr ''success'') = Some (PBool False)"
proof -
  have "\<exists>e. quiz_fields request = Inl e"
    using assms by (auto simp: quiz_fields_def split: option.splits)
  then have "quiz rnd s request = (Inl (HTTPException 400), s)"
    by (auto simp: quiz_def)
  then show ?thesis
    by (simp add: respond_def handle_exception_def bad_req_def dict_get_def)
qed

text \<open>A body with \<^verbatim>\<open>previous_questions\<close> and no \<^verbatim>\<open>quiz_category\<close>.\<close>

theorem quiz_missing_field_bad_request_witness:
  "respond (quiz first_draw sample_store quiz_request_no_category) = (bad_req, sample_store)"
  using quiz_missing_field_bad_request [of quiz_request_no_category first_draw sample_store]
  by (simp add: quiz_request_no_category_def)

section \<open>Dictionaries and keyed rows\<close>

lemma map_of_dict_set: "map_of (dict_set k v d) = (map_of d)(k \<mapsto> v)"
  by (induction d) (auto simp: fun_eq_iff)

lemma keys_dict_set: "fst ` set (dict_set k v d) = insert k (fst ` set d)"
proof (induction d)
  case Nil
  show ?case by simp
next
  case (Cons a d)
  obtain k' v' where a: "a = (k', v')" by (cases a)
  show ?case using Cons.IH by (cases "k' = k") (auto simp: a)
qed

lemma map_of_fold_dict_set:
  "map_of (foldl (\<lambda>d c. dict_set (f c) (g c) d) d0 cs) =
   map_of d0 ++ map_of (rev (map (\<lambda>c. (f c, g c)) cs))"
proof (induction cs arbitrary: d0)
  case Nil
  show ?case by simp
next
  case (Cons c cs)
  show ?case
    by (rule ext) (simp add: Cons.IH map_of_dict_set map_add_def split: option.split)
qed

lemma keys_fold_dict_set:
  "fst ` set (foldl (\<lambda>d c. dict_set (f c) (g c) d) d0 cs) = fst ` set d0 \<union> f ` set cs"
  by (induction cs arbitrary: d0) (auto simp: keys_dict_set)

lemma formatted_categories_keys:
  "fst ` set (formatted_categories cats) = (\<lambda>c. KInt (c_id c)) ` set cats"
  by (simp add: formatted_categories_def keys_fold_dict_set)

lemma formatted_categories_lookup:
  assumes "distinct (map c_id cats)" "c \<in> set cats"
  shows "map_of (formatted_categories cats) (KInt (c_id c)) = Some (PStr (c_type c))"
proof -
  let ?e = "\<lambda>c. (KInt (c_id c), PStr (c_type c))"
  have "map fst (rev (map ?e cats)) = map KInt (rev (map c_id cats))"
    by (simp add: rev_map)
  moreover have "distinct (map KInt (rev (map c_id cats)))"
    using assms(1) by (simp add: distinct_map inj_on_def)
  ultimately have "distinct (map fst (rev (map ?e cats)))" by simp
  moreover have "?e c \<in> set (rev (map ?e cats))" using assms(2) by simp
  ultimately have "map_of (rev (map ?e cats)) (KInt (c_id c)) = Some (PStr (c_type c))"
    by (intro map_of_is_SomeI) simp_all
  then show ?thesis
    by (simp add: formatted_categories_def map_of_fold_dict_set)
qed

lemma filter_key_unique:
  assumes "distinct (map f xs)" "x \<in> set xs"
  shows "filter (\<lambda>y. f y = f x) xs = [x]"
  using assms
proof (induction xs)
  case Nil
  then show ?case by simp
next
  case (Cons a xs)
  show ?case
  proof (cases "a = x")
    case True
    have "f x \<notin> f ` set xs" using Cons.prems(1) True by simp
    then have "\<And>y. y \<in> set xs \<Longrightarrow> f y \<noteq> f x" by (metis imageI)
    then have "filter (\<lambda>y. f y = f x) xs = []" by (simp add: filter_empty_conv)
    with True show ?thesis by simp
  next
    case False
    then have "x \<in> set xs" using Cons.prems(2) by simp
    moreover have "f a \<noteq> f x" using Cons.prems(1) \<open>x \<in> set xs\<close> by auto
    ultimately show ?thesis using Cons by simp
  qed
qed

lemma filter_key_absent:
  "k \<notin> f ` set xs \<Longrightarrow> filter (\<lambda>y. f y = k) xs = []"
  by (force simp: filter_empty_conv)

lemma filter_other_keys:
  assumes "distinct (map f xs)" "x \<in> set xs"
  shows "filter (\<lambda>y. f y \<noteq> f x) xs = remove1 x xs"
  using assms
proof (induction xs)
  case Nil
  then show ?case by simp
next
  case (Cons a xs)
  show ?case
  proof (cases "a = x")
    case True
    have "f x \<notin> f ` set xs" using Cons.prems(1) True by simp
    then have "\<And>y. y \<in> set xs \<Longrightarrow> f y \<noteq> f x" by (metis imageI)
    then have "filter (\<lambda>y. f y \<noteq> f x) xs = xs" by (simp add: filter_id_conv)
    with True show ?thesis by simp
  next
    case False
    then have "x \<in> set xs" using Cons.prems(2) by simp
    moreover have "f a \<noteq> f x" using Cons.prems(1) \<open>x \<in> set xs\<close> by auto
    ultimately show ?thesis using Cons False by simp
  qed
qed

section \<open>GET /questions\<close>

lemma get_questions_result:
  "get_questions s request =
     (if pagination request (sort_key (\<lambda>q. (q_category q, q_id q)) (question_table s)) = []
      then (Inl (HTTPException 404), s)
      else (Inr (PDict [(KStr ''success'', PBool True),
                        (KStr ''questions'', PList (pagination request
                            (sort_key (\<lambda>q. (q_category q, q_id q)) (question_table s)))),
                        (KStr ''total_questions'', PInt (int (length (question_table s)))),
                        (KStr ''categories'', PDict (formatted_categories (category_table s)))],
                 200), s))"
  by (simp add: get_questions_def Let_def)

lemma respond_abort_404: "respond (Inl (HTTPException 404), s) = (not_fond, s)"
  by (simp add: respond_def handle_exception_def)

lemma respond_value: "respond (Inr r, s) = (r, s)"
  by (simp add: respond_def)

lemma status_not_fond: "snd not_fond = 404"
  by (simp add: not_fond_def)

text \<open>
  C4. GET /questions takes all questions in ascending order of (category, id) (the
  selection is sorted by that key and is a permutation of the table) and paginates them.
  The answer is 404 exactly when the page is empty, and then it is the answer of the
  404 handler. Otherwise it is 200 with \<^verbatim>\<open>success\<close> true, the formatted questions of the page,
  the number of questions of the whole table, and the category mapping: its keys are
  the ids of the category table, and where those ids are distinct each id is mapped to
  the type of its category. The store is unchanged.
\<close>

theorem get_questions_contract:
  "sorted (map (\<lambda>q. (q_category q, q_id q))
      (sort_key (\<lambda>q. (q_category q, q_id q)) (question_table s))) \<and>
   mset (sort_key (\<lambda>q. (q_category q, q_id q)) (question_table s)) = mset (question_table s) \<and>
   (snd (fst (respond (get_questions s request))) = 404 \<longleftrightarrow>
      pagination request (sort_key (\<lambda>q. (q_category q, q_id q)) (question_table s)) = []) \<and>
   (pagination request (sort_key (\<lambda>q. (q_category q, q_id q)) (question_table s)) = [] \<longrightarrow>
      respond (get_questions s request) = (not_fond, s)) \<and>
   (pagination request (sort_key (\<lambda>q. (q_category q, q_id q)) (question_table s)) \<noteq> [] \<longrightarrow>
      respond (get_questions s request) =
        ((PDict [(KStr ''success'', PBool True),
                 (KStr ''questions'', PList (pagination request
                     (sort_key (\<lambda>q. (q_category q, q_id q)) (question_table s)))),
                 (KStr ''total_questions'', PInt (int (length (question_table s)))),
                 (KStr ''categories'', PDict (formatted_categories (category_table s)))],
          200), s)) \<and>
   fst ` set (formatted_categories (category_table s)) =
     (\<lambda>c. KInt (c_id c)) ` set (category_table s) \<and>
   (distinct (map c_id (category_table s)) \<longrightarrow>
      (\<forall>c \<in> set (category_table s).
         map_of (formatted_categories (category_table s)) (KInt (c_id c)) = Some (PStr (c_type c))))"
proof (intro conjI impI ballI)
  show "sorted (map (\<lambda>q. (q_category q, q_id q))
      (sort_key (\<lambda>q. (q_category q, q_id q)) (question_table s)))"
    by (rule sorted_sort_key)
  show "mset (sort_key (\<lambda>q. (q_category q, q_id q)) (question_table s)) = mset (question_table s)"
    by (rule mset_sort)
  show "snd (fst (respond (get_questions s request))) = 404 \<longleftrightarrow>
      pagination request (sort_key (\<lambda>q. (q_category q, q_id q)) (question_table s)) = []"
    by (simp add: get_questions_result respond_abort_404 respond_value status_not_fond)
  show "respond (get_questions s request) = (not_fond, s)"
    if "pagination request (sort_key (\<lambda>q. (q_category q, q_id q)) (question_table s)) = []"
    using that by (simp add: get_questions_result respond_abort_404)
  show "respond (get_questions s request) =
        ((PDict [(KStr ''success'', PBool True),
                 (KStr ''questions'', PList (pagination request
                     (sort_key (\<lambda>q. (q_category q, q_id q)) (question_table s)))),
                 (KStr ''total_questions'', PInt (int (length (question_table s)))),
                 (KStr ''categories'', PDict (formatted_categories (category_table s)))],
          200), s)"
    if "pagination request (sort_key (\<lambda>q. (q_category q, q_id q)) (question_table s)) \<noteq> []"
    using that by (simp add: get_questions_result respond_value)
  show "fst ` set (formatted_categories (category_table s)) =
     (\<lambda>c. KInt (c_id c)) ` set (category_table s)"
    by (rule formatted_categories_keys)
  show "map_of (formatted_categories (category_table s)) (KInt (c_id c)) = Some (PStr (c_type c))"
    if "distinct (map c_id (category_table s))" "c \<in> set (category_table s)" for c
    using that by (rule formatted_categories_lookup)
qed

lemma unordered_store_sorted:
  "sort_key (\<lambda>q. (q_category q, q_id q)) (question_table unordered_store) =
   [question_in 1 2, question_in 2 1, question_in 2 3]"
  by (simp add: unordered_store_def question_in_def)

lemma unordered_store_categories:
  "formatted_categories (category_table unordered_store) =
   [(KInt 1, PStr ''Science''), (KInt 2, PStr ''Art'')]"
  by (simp add: unordered_store_def formatted_categories_def)

text \<open>Three questions stored out of order: page 1 lists them by (category, id), page 2
  is not found.\<close>

theorem get_questions_contract_witness:
  "respond (get_questions unordered_store plain_request) =
     ((PDict [(KStr ''success'', PBool True),
              (KStr ''questions'', PList [format_question (question_in 1 2),
                                          format_question (question_in 2 1),
                                          format_question (question_in 2 3)]),
              (KStr ''total_questions'', PInt 3),
              (KStr ''categories'', PDict [(KInt 1, PStr ''Science''), (KInt 2, PStr ''Art'')])],
       200), unordered_store) \<and>
   respond (get_questions unordered_store (page_request 2)) = (not_fond, unordered_store)"
proof -
  have p1: "pagination plain_request [question_in 1 2, question_in 2 1, question_in 2 3] =
      [format_question (question_in 1 2), format_question (question_in 2 1),
       format_question (question_in 2 3)]"
    by (simp add: pagination_def requested_page_def plain_request_def QUESTIONS_PER_PAGE_def
        py_slice_def slice_bound_def)
  have p2: "pagination (page_request 2) [question_in 1 2, question_in 2 1, question_in 2 3] = []"
    by (simp add: pagination_def requested_page_def page_request_def QUESTIONS_PER_PAGE_def
        py_slice_def slice_bound_def)
  have n: "length (question_table unordered_store) = 3" by (simp add: unordered_store_def)
  from get_questions_contract [of unordered_store plain_request]
       get_questions_contract [of unordered_store "page_request 2"]
  show ?thesis
    unfolding unordered_store_sorted unordered_store_categories p1 p2 n by simp
qed

section \<open>GET /categories/<id>/questions\<close>

lemma get_questions_by_category_unknown:
  assumes "category_id \<notin> c_id ` set (category_table s)"
  shows "get_questions_by_category s request category_id = (Inl (HTTPException 404), s)"
  using filter_key_absent [OF assms]
  by (simp add: get_questions_by_category_def one_or_none_def)

lemma get_questions_by_category_known:
  assumes "distinct (map c_id (category_table s))" "c \<in> set (category_table s)"
  shows "get_questions_by_category s request (c_id c) =
     (Inr (PDict [(KStr ''questions'', PList (pagination request
                      (filter (\<lambda>q. q_category q = c_id c) (question_table s)))),
                  (KStr ''total_questions'', PInt (int (length (question_table s)))),
                  (KStr ''current_category'', PStr (c_type c))], 200), s)"
  using filter_key_unique [OF assms]
  by (simp add: get_questions_by_category_def one_or_none_def)

lemma pagination_nil: "pagination request [] = []"
  by (simp add: pagination_def py_slice_def)

text \<open>
  C6. Where category ids are distinct (the id is the table's key),
  GET /categories/<id>/questions answers 404 exactly when no category has the id, and
  then with the answer of the 404 handler. For the id of a category it answers 200 with
  the page of the formatted questions whose category equals the id, the number of ALL
  questions of the store, and the category's type; when no question has that category,
  the list is empty and the answer is still 200. The store is unchanged.
\<close>

theorem get_questions_by_category_contract:
  assumes "distinct (map c_id (category_table s))"
  shows "(snd (fst (respond (get_questions_by_category s request category_id))) = 404 \<longleftrightarrow>
            category_id \<notin> c_id ` set (category_table s)) \<and>
         (category_id \<notin> c_id ` set (category_table s) \<longrightarrow>
            respond (get_questions_by_category s request category_id) = (not_fond, s)) \<and>
         (\<forall>c \<in> set (category_table s). c_id c = category_id \<longrightarrow>
            respond (get_questions_by_category s request category_id) =
              ((PDict [(KStr ''questions'', PList (pagination request
                          (filter (\<lambda>q. q_category q = category_id) (question_table s)))),
                       (KStr ''total_questions'', PInt (int (length (question_table s)))),
                       (KStr ''current_category'', PStr (c_type c))], 200), s) \<and>
            ((\<forall>q \<in> set (question_table s). q_category q \<noteq> category_id) \<longrightarrow>
               respond (get_questions_by_category s request category_id) =
                 ((PDict [(KStr ''questions'', PList []),
                          (KStr ''total_questions'', PInt (int (length (question_table s)))),
                          (KStr ''current_category'', PStr (c_type c))], 200), s)))"
proof -
  have unknown: "respond (get_questions_by_category s request category_id) = (not_fond, s)"
    if "category_id \<notin> c_id ` set (category_table s)"
    by (simp add: get_questions_by_category_unknown [OF that] respond_abort_404)
  have known: "respond (get_questions_by_category s request category_id) =
              ((PDict [(KStr ''questions'', PList (pagination request
                          (filter (\<lambda>q. q_category q = category_id) (question_table s)))),
                       (KStr ''total_questions'', PInt (int (length (question_table s)))),
                       (KStr ''current_category'', PStr (c_type c))], 200), s)"
    if "c \<in> set (category_table s)" "c_id c = category_id" for c
    unfolding that(2) [symmetric]
    by (simp add: get_questions_by_category_known [OF assms that(1)] respond_value)
  have none: "filter (\<lambda>q. q_category q = category_id) (question_table s) = []"
    if "\<forall>q \<in> set (question_table s). q_category q \<noteq> category_id"
    using that by (simp add: filter_empty_conv)
  have iff: "snd (fst (respond (get_questions_by_category s request category_id))) = 404 \<longleftrightarrow>
            category_id \<notin> c_id ` set (category_table s)"
  proof (cases "category_id \<in> c_id ` set (category_table s)")
    case True
    then obtain c where "c \<in> set (category_table s)" "c_id c = category_id" by auto
    from known [OF this] True show ?thesis by simp
  next
    case False
    from unknown [OF this] False show ?thesis by (simp add: status_not_fond)
  qed
  show ?thesis
  proof (intro conjI impI ballI)
    show "snd (fst (respond (get_questions_by_category s request category_id))) = 404 \<longleftrightarrow>
            category_id \<notin> c_id ` set (category_table s)" by (rule iff)
    show "respond (get_questions_by_category s request category_id) = (not_fond, s)"
      if "category_id \<notin> c_id ` set (category_table s)" using that by (rule unknown)
    show "respond (get_questions_by_category s request category_id) =
              ((PDict [(KStr ''questions'', PList (pagination request
                          (filter (\<lambda>q. q_category q = category_id) (question_table s)))),
                       (KStr ''total_questions'', PInt (int (length (question_table s)))),
                       (KStr ''current_category'', PStr (c_type c))], 200), s)"
      if "c \<in> set (category_table s)" "c_id c = category_id" for c using that by (rule known)
    show "respond (get_questions_by_category s request category_id) =
                 ((PDict [(KStr ''questions'', PList []),
                          (KStr ''total_questions'', PInt (int (length (question_table s)))),
                          (KStr ''current_category'', PStr (c_type c))], 200), s)"
      if "c \<in> set (category_table s)" "c_id c = category_id"
        "\<forall>q \<in> set (question_table s). q_category q \<noteq> category_id" for c
      using known [OF that(1,2)] none [OF that(3)] by (simp add: pagination_nil)
  qed
qed

text \<open>On the sample store: category 2 exists and has no question, category 7 does not
  exist.\<close>

theorem get_questions_by_category_contract_witness:
  "distinct (map c_id (category_table sample_store)) \<and>
   respond (get_questions_by_category sample_store plain_request 2) =
     ((PDict [(KStr ''questions'', PList []),
              (KStr ''total_questions'', PInt 3),
              (KStr ''current_category'', PStr ''Art'')], 200), sample_store) \<and>
   respond (get_questions_by_category sample_store plain_request 7) = (not_fond, sample_store)"
proof -
  have d: "distinct (map c_id (category_table sample_store))"
    by (simp add: sample_store_def)
  from get_questions_by_category_contract [OF d, of plain_request 2]
       get_questions_by_category_contract [OF d, of plain_request 7]
  show ?thesis using d
    by (simp add: sample_store_def sample_question_def pagination_nil)
qed

section \<open>DELETE /questions/<id>\<close>

lemma pagination_subset: "set (pagination request selection) \<subseteq> format_question ` set selection"
proof -
  have "set (py_slice xs a b) \<subseteq> set xs" for xs :: "pyval list" and a b
    unfolding py_slice_def Let_def
    using set_take_subset set_drop_subset by (rule subset_trans)
  from this [of "map format_question selection"] show ?thesis
    by (simp add: pagination_def Let_def)
qed

lemma format_question_id: "dict_get (format_question q) (KStr ''id'') = Some (PInt (q_id q))"
  by (simp add: format_question_def dict_get_def)

lemma delete_question_known:
  assumes "distinct (map q_id (question_table s))" "q \<in> set (question_table s)"
  shows "delete_question s request (q_id q) =
     (Inr (PDict [(KStr ''success'', PBool True),
                  (KStr ''deleted'', PInt (q_id q)),
                  (KStr ''question'', PList (pagination request
                      (sort_key q_id (remove1 q (question_table s))))),
                  (KStr ''total_questions'', PInt (int (length (remove1 q (question_table s)))))],
           200),
      s\<lparr>question_table := remove1 q (question_table s)\<rparr>)"
  using filter_key_unique [OF assms] filter_other_keys [OF assms]
  by (simp add: delete_question_def delete_question_try_def one_or_none_def delete_row_def Let_def)

lemma delete_question_unknown:
  assumes "question_id \<notin> q_id ` set (question_table s)"
  shows "delete_question s request question_id = (Inl (HTTPException 422), s)"
  using filter_key_absent [OF assms]
  by (simp add: delete_question_def delete_question_try_def one_or_none_def)

text \<open>
  C7. Where question ids are distinct (the id is the table's key) and \<open>q\<close> is a question
  of the store, DELETE /questions/<id of q> answers 200 with \<^verbatim>\<open>success\<close> true, the id of
  \<open>q\<close> as \<^verbatim>\<open>deleted\<close>, the page (by the request's page parameter) of the remaining questions
  in ascending order of id, and a total that is one less than the number of questions
  before. The new store is the old one without exactly the row \<open>q\<close>: no remaining row has
  its id, the table is one row shorter, and no page of a later listing holds a record
  with that id.
\<close>

theorem delete_question_removes_question:
  assumes "distinct (map q_id (question_table s))" "q \<in> set (question_table s)"
  shows "respond (delete_question s request (q_id q)) =
          ((PDict [(KStr ''success'', PBool True),
                   (KStr ''deleted'', PInt (q_id q)),
                   (KStr ''question'', PList (pagination request
                       (sort_key q_id (remove1 q (question_table s))))),
                   (KStr ''total_questions'', PInt (int (length (question_table s)) - 1))],
            200),
           s\<lparr>question_table := remove1 q (question_table s)\<rparr>) \<and>
         sorted (map q_id (sort_key q_id (remove1 q (question_table s)))) \<and>
         mset (sort_key q_id (remove1 q (question_table s))) = mset (question_table s) - {#q#} \<and>
         q_id q \<notin> q_id ` set (remove1 q (question_table s)) \<and>
         length (remove1 q (question_table s)) + 1 = length (question_table s) \<and>
         (\<forall>request' v.
            v \<in> set (pagination (request' :: unit request)
                       (sort_key (\<lambda>q. (q_category q, q_id q)) (remove1 q (question_table s)))) \<longrightarrow>
            dict_get v (KStr ''id'') \<noteq> Some (PInt (q_id q)))"
proof -
  let ?rest = "remove1 q (question_table s)"
  have len: "length ?rest + 1 = length (question_table s)"
    using assms(2) length_pos_if_in_set [OF assms(2)] by (simp add: length_remove1)
  then have total: "int (length ?rest) = int (length (question_table s)) - 1" by simp
  have dist: "distinct (question_table s)" using assms(1) by (simp add: distinct_map)
  have gone: "q_id q \<notin> q_id ` set ?rest"
  proof
    assume "q_id q \<in> q_id ` set ?rest"
    then obtain r where r: "r \<in> set ?rest" "q_id r = q_id q" by auto
    then have "r \<in> set (question_table s)" "r \<noteq> q" using dist by simp_all
    moreover have "inj_on q_id (set (question_table s))" using assms(1) by (simp add: distinct_map)
    ultimately show False using r(2) assms(2) by (auto dest: inj_onD)
  qed
  have listed: "dict_get v (KStr ''id'') \<noteq> Some (PInt (q_id q))"
    if "v \<in> set (pagination request' (sort_key (\<lambda>q. (q_category q, q_id q)) ?rest))"
    for request' :: "unit request" and v
  proof -
    from that pagination_subset have "v \<in> format_question ` set (sort_key (\<lambda>q. (q_category q, q_id q)) ?rest)"
      by blast
    then obtain r where r: "r \<in> set ?rest" "v = format_question r" by auto
    from r(1) gone have "q_id r \<noteq> q_id q" by (metis imageI)
    then show ?thesis by (simp add: r(2) format_question_id)
  qed
  show ?thesis
  proof (intro conjI allI impI)
    show "respond (delete_question s request (q_id q)) =
          ((PDict [(KStr ''success'', PBool True),
                   (KStr ''deleted'', PInt (q_id q)),
                   (KStr ''question'', PList (pagination request (sort_key q_id ?rest))),
                   (KStr ''total_questions'', PInt (int (length (question_table s)) - 1))],
            200),
           s\<lparr>question_table := ?rest\<rparr>)"
      by (simp add: delete_question_known [OF assms] respond_value total)
    show "sorted (map q_id (sort_key q_id ?rest))" by (rule sorted_sort_key)
    show "mset (sort_key q_id ?rest) = mset (question_table s) - {#q#}" by simp
    show "q_id q \<notin> q_id ` set ?rest" by (rule gone)
    show "length ?rest + 1 = length (question_table s)" by (rule len)
    show "dict_get v (KStr ''id'') \<noteq> Some (PInt (q_id q))"
      if "v \<in> set (pagination request' (sort_key (\<lambda>q. (q_category q, q_id q)) ?rest))"
      for request' :: "unit request" and v
      using that by (rule listed)
  qed
qed

text \<open>Deleting question 2 of the sample store.\<close>

theorem delete_question_removes_question_witness:
  "distinct (map q_id (question_table sample_store)) \<and>
   sample_question 2 \<in> set (question_table sample_store) \<and>
   respond (delete_question sample_store plain_request 2) =
     ((PDict [(KStr ''success'', PBool True),
              (KStr ''deleted'', PInt 2),
              (KStr ''question'', PList [format_question (sample_question 1),
                                         format_question (sample_question 3)]),
              (KStr ''total_questions'', PInt 2)], 200),
      sample_store\<lparr>question_table := [sample_question 1, sample_question 3]\<rparr>)"
proof -
  have d: "distinct (map q_id (question_table sample_store))"
    by (simp add: sample_store_def sample_question_def)
  have m: "sample_question 2 \<in> set (question_table sample_store)"
    by (simp add: sample_store_def)
  have r: "remove1 (sample_question 2) (question_table sample_store) =
           [sample_question 1, sample_question 3]"
    by (simp add: sample_store_def sample_question_def)
  have o: "sort_key q_id [sample_question 1, sample_question 3] =
           [sample_question 1, sample_question 3]"
    by (simp add: sample_question_def)
  have p: "pagination plain_request [sample_question 1, sample_question 3] =
           [format_question (sample_question 1), format_question (sample_question 3)]"
    by (simp add: pagination_def requested_page_def plain_request_def QUESTIONS_PER_PAGE_def
        py_slice_def slice_bound_def)
  have i: "q_id (sample_question 2) = 2" by (simp add: sample_question_def)
  have n: "length (question_table sample_store) = 3" by (simp add: sample_store_def)
  from delete_question_removes_question [OF d m, of plain_request]
  have "respond (delete_question sample_store plain_request 2) =
     ((PDict [(KStr ''success'', PBool True),
              (KStr ''deleted'', PInt 2),
              (KStr ''question'', PList [format_question (sample_question 1),
                                         format_question (sample_question 3)]),
              (KStr ''total_questions'', PInt 2)], 200),
      sample_store\<lparr>question_table := [sample_question 1, sample_question 3]\<rparr>)"
    unfolding r o p i n by simp
  with d m show ?thesis by simp
qed

text \<open>
  C3. The code at an id that is not in the store: the exception raised by \<^verbatim>\<open>abort(404)\<close>
  is caught by the bare \<^verbatim>\<open>except:\<close> of the same view, which aborts with 422. The answer
  is the one of the 422 handler, not of the 404 handler.
\<close>

theorem delete_question_unknown_id_unprocessable:
  "respond (delete_question sample_store plain_request 99) = (unprocessable, sample_store) \<and>
   snd unprocessable = 422 \<and>
   99 \<notin> q_id ` set (question_table sample_store)"
  by (simp add: delete_question_unknown respond_def handle_exception_def unprocessable_def
      sample_store_def sample_question_def)

section \<open>POST /search\<close>

text \<open>Without wildcard characters a pattern \<^verbatim>\<open>%t%\<close> matches the texts that contain \<open>t\<close>.\<close>

lemma like_match_any: "like_match ''%'' s"
  by (induction s) simp_all

lemma like_match_literal:
  "wildcard_free p \<Longrightarrow> like_match p s \<longleftrightarrow> s = p"
proof (induction p arbitrary: s)
  case Nil
  show ?case by simp
next
  case (Cons c p)
  then have "wildcard_free p" and "c \<noteq> CHR ''%''" "c \<noteq> CHR ''_''" "c \<noteq> CHR 0x5C"
    by (auto simp: wildcard_free_def)
  with Cons.IH show ?case by (cases s) auto
qed

lemma like_match_prefix:
  "wildcard_free p \<Longrightarrow> like_match (p @ ''%'') s \<longleftrightarrow> prefix p s"
proof (induction p arbitrary: s)
  case Nil
  show ?case using like_match_any by simp
next
  case (Cons c p)
  then have "wildcard_free p" and "c \<noteq> CHR ''%''" "c \<noteq> CHR ''_''" "c \<noteq> CHR 0x5C"
    by (auto simp: wildcard_free_def)
  with Cons.IH show ?case by (cases s) auto
qed

lemma like_match_percent:
  "like_match (CHR ''%'' # q) s \<longleftrightarrow> (\<exists>ss. suffix ss s \<and> like_match q ss)"
proof (induction s)
  case Nil
  show ?case by simp
next
  case (Cons c s)
  have "like_match (CHR ''%'' # q) (c # s) \<longleftrightarrow>
        like_match q (c # s) \<or> like_match (CHR ''%'' # q) s" by simp
  also have "\<dots> \<longleftrightarrow> like_match q (c # s) \<or> (\<exists>ss. suffix ss s \<and> like_match q ss)"
    by (simp only: Cons.IH)
  also have "\<dots> \<longleftrightarrow> (\<exists>ss. suffix ss (c # s) \<and> like_match q ss)"
    by (auto simp: suffix_Cons)
  finally show ?case .
qed

lemma like_match_contains:
  assumes "wildcard_free t"
  shows "like_match (''%'' @ t @ ''%'') s \<longleftrightarrow> sublist t s"
proof -
  have "like_match (''%'' @ t @ ''%'') s \<longleftrightarrow> (\<exists>ss. suffix ss s \<and> prefix t ss)"
    using like_match_percent [of "t @ ''%''" s] like_match_prefix [OF assms] by simp
  then show ?thesis by (simp add: sublist_altdef')
qed

lemma of_char_lower_char:
  "(of_char (lower_char c) :: nat) =
     (if 65 \<le> (of_char c :: nat) \<and> (of_char c :: nat) \<le> 90 then of_char c + 32 else of_char c)"
  by (simp add: lower_char_def Let_def)

lemma lower_char_eq_iff:
  assumes "(of_char d :: nat) < 97 \<or> 122 < (of_char d :: nat)"
    and "(of_char d :: nat) < 65 \<or> 90 < (of_char d :: nat)"
  shows "lower_char c = d \<longleftrightarrow> c = d"
proof -
  have "lower_char c = d \<longleftrightarrow> (of_char (lower_char c) :: nat) = of_char d"
    by simp
  also have "\<dots> \<longleftrightarrow> (of_char c :: nat) = of_char d"
    using assms unfolding of_char_lower_char by auto
  also have "\<dots> \<longleftrightarrow> c = d" by simp
  finally show ?thesis .
qed

lemma lower_char_wildcard:
  "lower_char c = CHR ''%'' \<longleftrightarrow> c = CHR ''%''"
  "lower_char c = CHR ''_'' \<longleftrightarrow> c = CHR ''_''"
  "lower_char c = CHR 0x5C \<longleftrightarrow> c = CHR 0x5C"
  by (rule lower_char_eq_iff; simp)+

lemma wildcard_free_lower: "wildcard_free (map lower_char t) \<longleftrightarrow> wildcard_free t"
proof -
  have "d \<in> lower_char ` set t \<longleftrightarrow> d \<in> set t"
    if "\<And>c. lower_char c = d \<longleftrightarrow> c = d" for d
  proof
    assume "d \<in> lower_char ` set t"
    then obtain c where "c \<in> set t" "lower_char c = d" by auto
    with that [of c] show "d \<in> set t" by simp
  next
    assume "d \<in> set t"
    moreover have "lower_char d = d" using that [of d] by simp
    ultimately show "d \<in> lower_char ` set t" by (metis imageI)
  qed
  from this [OF lower_char_wildcard(1)] this [OF lower_char_wildcard(2)]
    this [OF lower_char_wildcard(3)]
  show ?thesis by (simp add: wildcard_free_def)
qed

lemma ilike_contains:
  assumes "wildcard_free t"
  shows "ilike text (search_pattern (Some t)) \<longleftrightarrow>
         sublist (map lower_char t) (map lower_char text)"
proof -
  have "map lower_char (search_pattern (Some t)) = ''%'' @ map lower_char t @ ''%''"
    by (simp add: search_pattern_def lower_char_def)
  then show ?thesis
    using like_match_contains [of "map lower_char t" "map lower_char text"] assms
    by (simp add: ilike_def wildcard_free_lower)
qed

text \<open>
  For a term without \<^verbatim>\<open>%\<close>, \<^verbatim>\<open>_\<close> and backslash the view does what its docstring says:
  the matches are the questions whose text contains the term, letter case ignored; with
  no match the answer is 404, and otherwise all matches are returned, unpaginated, with
  their number as the total.
\<close>

lemma search_questions_literal_term:
  assumes "wildcard_free t" and "json request = Some \<lparr>searchTerm = Some t\<rparr>"
  shows "(filter (\<lambda>q. sublist (map lower_char t) (map lower_char (q_question q)))
            (question_table s) = [] \<longrightarrow>
          respond (search_questions s request) = (not_fond, s)) \<and>
         (filter (\<lambda>q. sublist (map lower_char t) (map lower_char (q_question q)))
            (question_table s) \<noteq> [] \<longrightarrow>
          (\<exists>category. respond (search_questions s request) =
             ((PDict [(KStr ''success'', PBool True),
                      (KStr ''questions'', PList (map format_question
                         (filter (\<lambda>q. sublist (map lower_char t) (map lower_char (q_question q)))
                            (question_table s)))),
                      (KStr ''total_questions'', PInt (int (length
                         (filter (\<lambda>q. sublist (map lower_char t) (map lower_char (q_question q)))
                            (question_table s))))),
                      (KStr ''current_category'', PList category)], 200), s)))"
proof -
  let ?found = "filter (\<lambda>q. sublist (map lower_char t) (map lower_char (q_question q)))
                  (question_table s)"
  have result: "filter (\<lambda>q. ilike (q_question q) (search_pattern (Some t))) (question_table s)
                = ?found"
    by (simp add: ilike_contains [OF assms(1)])
  show ?thesis
  proof (intro conjI impI)
    assume "?found = []"
    then have "search_questions_try s request = Inl (HTTPException 404)"
      unfolding search_questions_try_def assms(2) Let_def option.case search_body.simps result
      by simp
    then show "respond (search_questions s request) = (not_fond, s)"
      by (simp add: search_questions_def respond_abort_404)
  next
    assume "?found \<noteq> []"
    then have "\<exists>category. search_questions_try s request =
        Inr (PDict [(KStr ''success'', PBool True),
                    (KStr ''questions'', PList (map format_question ?found)),
                    (KStr ''total_questions'', PInt (int (length ?found))),
                    (KStr ''current_category'', PList category)], 200)"
      unfolding search_questions_try_def assms(2) Let_def option.case search_body.simps result
      by simp
    then obtain category where "search_questions_try s request =
        Inr (PDict [(KStr ''success'', PBool True),
                    (KStr ''questions'', PList (map format_question ?found)),
                    (KStr ''total_questions'', PInt (int (length ?found))),
                    (KStr ''current_category'', PList category)], 200)"
      by (rule exE)
    then have "respond (search_questions s request) =
        ((PDict [(KStr ''success'', PBool True),
                    (KStr ''questions'', PList (map format_question ?found)),
                    (KStr ''total_questions'', PInt (int (length ?found))),
                    (KStr ''current_category'', PList category)], 200), s)"
      by (simp add: search_questions_def respond_value)
    then show "\<exists>category. respond (search_questions s request) =
        ((PDict [(KStr ''success'', PBool True),
                    (KStr ''questions'', PList (map format_question ?found)),
                    (KStr ''total_questions'', PInt (int (length ?found))),
                    (KStr ''current_category'', PList category)], 200), s)"
      by (rule exI)
  qed
qed

lemma ilike_abc_underscore: "ilike ''abc'' (search_pattern (Some ''_''))"
proof -
  have "map lower_char ''abc'' = ''abc''" "map lower_char ''%_%'' = ''%_%''"
    by (simp_all add: lower_char_def)
  then show ?thesis by (simp add: ilike_def search_pattern_def)
qed

lemma search_underscore_result:
  "filter (\<lambda>q. ilike (q_question q) (search_pattern (Some ''_''))) (question_table sample_store) =
   [sample_question 1, sample_question 2, sample_question 3]"
proof -
  have "q_question (sample_question i) = ''abc''" for i by (simp add: sample_question_def)
  then show ?thesis by (simp add: sample_store_def ilike_abc_underscore)
qed

lemma sample_store_page:
  "pagination (search_request t) [sample_question 1, sample_question 2, sample_question 3] =
   [format_question (sample_question 1), format_question (sample_question 2),
    format_question (sample_question 3)]"
  by (simp add: pagination_def requested_page_def search_request_def QUESTIONS_PER_PAGE_def
      py_slice_def slice_bound_def)

lemma sample_store_category_of:
  "map format_category
     (filter (\<lambda>c. dict_get (format_question (sample_question i)) (KStr ''category'') =
                    Some (PInt (c_id c))) (category_table sample_store)) =
   [format_category \<lparr>c_id = 1, c_type = ''Science''\<rparr>]"
proof -
  have "dict_get (format_question (sample_question i)) (KStr ''category'') = Some (PInt 1)"
    by (simp add: format_question_def dict_get_def sample_question_def)
  then show ?thesis by (simp add: sample_store_def)
qed

text \<open>
  C5. The code at the search term \<^verbatim>\<open>_\<close>: the term is put into the ILIKE pattern as it
  is, so the pattern is \<^verbatim>\<open>%_%\<close> and every non-empty question text matches. No question
  text of the sample store contains an underscore, and the answer is 200 with all three
  questions, not 404.
\<close>

theorem search_underscore_matches_everything:
  "respond (search_questions sample_store (search_request ''_'')) =
     ((PDict [(KStr ''success'', PBool True),
              (KStr ''questions'', PList [format_question (sample_question 1),
                                          format_question (sample_question 2),
                                          format_question (sample_question 3)]),
              (KStr ''total_questions'', PInt 3),
              (KStr ''current_category'',
                 PList [format_category \<lparr>c_id = 1, c_type = ''Science''\<rparr>,
                        format_category \<lparr>c_id = 1, c_type = ''Science''\<rparr>,
                        format_category \<lparr>c_id = 1, c_type = ''Science''\<rparr>])], 200),
      sample_store) \<and>
   map q_question (question_table sample_store) = [''abc'', ''abc'', ''abc''] \<and>
   CHR ''_'' \<notin> set ''abc''"
proof -
  have j: "json (search_request ''_'') = Some \<lparr>searchTerm = Some ''_''\<rparr>"
    by (simp add: search_request_def)
  have "search_questions_try sample_store (search_request ''_'') =
     Inr (PDict [(KStr ''success'', PBool True),
              (KStr ''questions'', PList [format_question (sample_question 1),
                                          format_question (sample_question 2),
                                          format_question (sample_question 3)]),
              (KStr ''total_questions'', PInt 3),
              (KStr ''current_category'',
                 PList [format_category \<lparr>c_id = 1, c_type = ''Science''\<rparr>,
                        format_category \<lparr>c_id = 1, c_type = ''Science''\<rparr>,
                        format_category \<lparr>c_id = 1, c_type = ''Science''\<rparr>])], 200)"
    unfolding search_questions_try_def j Let_def option.case search_body.simps
      search_underscore_result sample_store_page
    by (simp add: sample_store_category_of)
  then have "respond (search_questions sample_store (search_request ''_'')) =
     ((PDict [(KStr ''success'', PBool True),
              (KStr ''questions'', PList [format_question (sample_question 1),
                                          format_question (sample_question 2),
                                          format_question (sample_question 3)]),
              (KStr ''total_questions'', PInt 3),
              (KStr ''current_category'',
                 PList [format_category \<lparr>c_id = 1, c_type = ''Science''\<rparr>,
                        format_category \<lparr>c_id = 1, c_type = ''Science''\<rparr>,
                        format_category \<lparr>c_id = 1, c_type = ''Science''\<rparr>])], 200),
      sample_store)"
    by (simp add: search_questions_def respond_value)
  moreover have "map q_question (question_table sample_store) = [''abc'', ''abc'', ''abc'']"
    by (simp add: sample_store_def sample_question_def)
  ultimately show ?thesis by simp
qed

end
